theory Spec2Isabelle
  imports Complex_Main "HOL-Library.Sublist"
begin

section \<open>Text primitives of Python used by \<open>plot_benchmark.py\<close>\<close>

text \<open>
  A Python \<open>str\<close> is modelled as a \<open>string\<close>, each \<open>char\<close> standing for one code
  point in the range 0..255.  The log file is modelled by its decoded text (what
  \<open>open(path, "r", encoding="utf-8")\<close> delivers); texts with code points above U+00FF
  and byte sequences that do not decode are outside the model.
\<close>

definition isspace :: "char \<Rightarrow> bool" where
  \<comment> \<open>\<open>str.isspace\<close> on one code point below 256: the characters \<open>strip()\<close> and
      \<open>split()\<close> treat as whitespace.\<close>
  "isspace c =
     (let n = (of_char c :: int)
      in (9 \<le> n \<and> n \<le> 13) \<or> (28 \<le> n \<and> n \<le> 32) \<or> n = 133 \<or> n = 160)"

definition str_strip :: "string \<Rightarrow> string" where
  \<comment> \<open>\<open>line.strip()\<close>\<close>
  "str_strip s = rev (dropWhile isspace (rev (dropWhile isspace s)))"

definition startswith :: "string \<Rightarrow> string \<Rightarrow> bool" where
  \<comment> \<open>\<open>s.startswith(p)\<close>\<close>
  "startswith s p = (take (length p) s = p)"

fun split_from :: "string \<Rightarrow> string \<Rightarrow> string list" where
  \<comment> \<open>the scan of \<open>str.split()\<close>: \<open>cur\<close> is the field being read\<close>
  "split_from cur [] = (if cur = [] then [] else [cur])"
| "split_from cur (c # cs) =
     (if isspace c then (if cur = [] then split_from [] cs else cur # split_from [] cs)
      else split_from (cur @ [c]) cs)"

definition str_split :: "string \<Rightarrow> string list" where
  \<comment> \<open>\<open>line.split()\<close> with no separator: the maximal runs of non-whitespace\<close>
  "str_split s = split_from [] s"

fun lines_from :: "string \<Rightarrow> string \<Rightarrow> string list" where
  \<comment> \<open>\<open>for line in f\<close> on a text file opened with universal newlines: a line ends at
      \<open>\n\<close>, \<open>\r\n\<close> or \<open>\r\<close>, each delivered as \<open>\n\<close>; a last line without a
      terminator is delivered as it is.\<close>
  "lines_from cur [] = (if cur = [] then [] else [cur])"
| "lines_from cur (c # cs) =
     (if c = CHR 0x0A then (cur @ [CHR 0x0A]) # lines_from [] cs
      else if c = CHR 0x0D then
        (case cs of
           [] \<Rightarrow> [cur @ [CHR 0x0A]]
         | d # ds \<Rightarrow>
             if d = CHR 0x0A then (cur @ [CHR 0x0A]) # lines_from [] ds
             else (cur @ [CHR 0x0A]) # lines_from [] cs)
      else lines_from (cur @ [c]) cs)"

definition file_lines :: "string \<Rightarrow> string list" where
  "file_lines content = lines_from [] content"

section \<open>Python floats\<close>

text \<open>
  A Python \<open>float\<close> is an IEEE 754 binary64 value: a sign with a finite magnitude (a
  rational here), an infinity, or NaN.  \<open>Finite True 0\<close> is \<open>-0.0\<close>.
\<close>

datatype pyfloat = Finite bool rat | Infinite bool | NaN

datatype error = ValueError | OverflowError | IndexError | OSError | DatetimeRangeError

definition pow2 :: "int \<Rightarrow> rat" where
  "pow2 k = (if 0 \<le> k then 2 ^ nat k else 1 / 2 ^ nat (- k))"

definition pow10 :: "int \<Rightarrow> rat" where
  "pow10 k = (if 0 \<le> k then 10 ^ nat k else 1 / 10 ^ nat (- k))"

function bit_length :: "int \<Rightarrow> int" where
  "bit_length n = (if n \<le> 0 then 0 else 1 + bit_length (n div 2))"
  by pat_completeness auto
termination
  by (relation "measure nat") auto

declare bit_length.simps [simp del]

definition ilog2 :: "rat \<Rightarrow> int" where
  \<comment> \<open>for \<open>0 < x\<close>: the \<open>e\<close> with \<open>2 ^ e \<le> x < 2 ^ (e + 1)\<close>\<close>
  "ilog2 x = (if 1 \<le> x then bit_length \<lfloor>x\<rfloor> - 1 else - bit_length (\<lceil>1 / x\<rceil> - 1))"

definition round_half_even :: "rat \<Rightarrow> int" where
  "round_half_even x =
     (let f = \<lfloor>x\<rfloor>; d = x - of_int f
      in if d < 1 / 2 then f else if 1 / 2 < d then f + 1 else if even f then f else f + 1)"

definition round64 :: "bool \<Rightarrow> rat \<Rightarrow> pyfloat" where
  \<comment> \<open>the binary64 value nearest to the magnitude \<open>x \<ge> 0\<close> (ties to even): 53 bits of
      mantissa, exponents from -1022 (below it the spacing stays \<open>2 ^ -1074\<close>), and
      infinity when the rounded value reaches \<open>2 ^ 1024\<close>.\<close>
  "round64 neg x =
     (if x = 0 then Finite neg 0
      else
        let q = max (ilog2 x) (- 1022) - 52;
            r = of_int (round_half_even (x / pow2 q)) * pow2 q
        in if 1023 < ilog2 r then Infinite neg else Finite neg r)"

definition isdigit :: "char \<Rightarrow> bool" where
  "isdigit c = (48 \<le> (of_char c :: int) \<and> (of_char c :: int) \<le> 57)"

definition digits_val :: "string \<Rightarrow> int" where
  "digits_val ds = foldl (\<lambda>a c. 10 * a + (of_char c - 48)) 0 ds"

definition to_ascii :: "string \<Rightarrow> string" where
  \<comment> \<open>what \<open>float(str)\<close> does first with a text that is not pure ASCII: whitespace
      becomes a blank, and any other character from 127 on becomes \<open>?\<close>, which never
      parses (below 256 there is no decimal digit but \<open>0\<close>..\<open>9\<close>).\<close>
  "to_ascii s =
     (if list_all (\<lambda>c. (of_char c :: int) < 128) s then s
      else map (\<lambda>c. if (of_char c :: int) < 127 then c
                      else if isspace c then CHR '' '' else CHR ''?'') s)"

fun underscores :: "char \<Rightarrow> string \<Rightarrow> string option" where
  \<comment> \<open>an underscore is allowed only between two digits; the result is the text without
      them.  \<open>prev\<close> is the character before.\<close>
  "underscores prev [] = (if prev = CHR ''_'' then None else Some [])"
| "underscores prev (c # cs) =
     (if c = CHR ''_'' then (if isdigit prev then underscores c cs else None)
      else if prev = CHR ''_'' \<and> \<not> isdigit c then None
      else map_option ((#) c) (underscores c cs))"

definition c_isspace :: "char \<Rightarrow> bool" where
  "c_isspace c = (let n = (of_char c :: int) in (9 \<le> n \<and> n \<le> 13) \<or> n = 32)"

definition c_strip :: "string \<Rightarrow> string" where
  "c_strip s = rev (dropWhile c_isspace (rev (dropWhile c_isspace s)))"

definition ci_char :: "char \<Rightarrow> char \<Rightarrow> bool" where
  \<comment> \<open>\<open>c\<close>, lowered when it is an ASCII capital, is the lower-case letter \<open>p\<close>\<close>
  "ci_char c p =
     (c = p \<or> (65 \<le> (of_char c :: int) \<and> (of_char c :: int) \<le> 90 \<and> (of_char c :: int) + 32 = of_char p))"

definition ci_match :: "string \<Rightarrow> string \<Rightarrow> bool" where
  "ci_match s pat = list_all2 ci_char s pat"

definition split_sign :: "string \<Rightarrow> bool \<times> string" where
  "split_sign s =
     (case s of
        [] \<Rightarrow> (False, [])
      | c # r \<Rightarrow> if c = CHR ''-'' then (True, r) else if c = CHR ''+'' then (False, r) else (False, s))"

definition parse_exponent :: "string \<Rightarrow> int option" where
  "parse_exponent s =
     (case s of
        [] \<Rightarrow> Some 0
      | c # r \<Rightarrow>
          if c = CHR ''e'' \<or> c = CHR ''E'' then
            (let (neg, ds) = split_sign r
             in if ds \<noteq> [] \<and> list_all isdigit ds
                then Some (if neg then - digits_val ds else digits_val ds)
                else None)
          else None)"

definition parse_decimal :: "string \<Rightarrow> rat option" where
  \<comment> \<open>digits, an optional point and digits, at least one digit in all, an optional
      exponent, and nothing after it; the value is exact.\<close>
  "parse_decimal s =
     (let ip = takeWhile isdigit s;
          r1 = dropWhile isdigit s;
          (fp, r2) =
            (case r1 of
               [] \<Rightarrow> ([], [])
             | c # r \<Rightarrow>
                 if c = CHR ''.'' then (takeWhile isdigit r, dropWhile isdigit r) else ([], r1))
      in if ip = [] \<and> fp = [] then None
         else
           (case parse_exponent r2 of
              None \<Rightarrow> None
            | Some ex \<Rightarrow> Some (of_int (digits_val (ip @ fp)) * pow10 (ex - int (length fp)))))"

definition parse_float_body :: "string \<Rightarrow> pyfloat option" where
  "parse_float_body s =
     (let (neg, r) = split_sign s
      in if ci_match r ''inf'' \<or> ci_match r ''infinity'' then Some (Infinite neg)
         else if ci_match r ''nan'' then Some NaN
         else map_option (round64 neg) (parse_decimal r))"

definition py_float :: "string \<Rightarrow> pyfloat option" where
  \<comment> \<open>\<open>float(s)\<close> for a \<open>str\<close>; \<open>None\<close> is its ValueError.\<close>
  "py_float s =
     (case underscores (CHR 0x00) (to_ascii s) of
        None \<Rightarrow> None
      | Some t \<Rightarrow> (let u = c_strip t in if u = [] then None else parse_float_body u))"

definition trunc_zero :: "bool \<Rightarrow> rat \<Rightarrow> int" where
  \<comment> \<open>the integer part of the float of sign \<open>neg\<close> and magnitude \<open>m\<close>\<close>
  "trunc_zero neg m = (if neg then - \<lfloor>m\<rfloor> else \<lfloor>m\<rfloor>)"

definition py_int :: "pyfloat \<Rightarrow> error + int" where
  \<comment> \<open>\<open>int(x)\<close> for a float: truncation toward zero; NaN raises ValueError and an
      infinity raises OverflowError.\<close>
  "py_int x =
     (case x of
        Finite neg m \<Rightarrow> Inr (trunc_zero neg m)
      | Infinite neg \<Rightarrow> Inl OverflowError
      | NaN \<Rightarrow> Inl ValueError)"

section \<open>Timestamps\<close>

text \<open>
  A naive UTC \<open>datetime\<close> of whole seconds is modelled by its epoch second.
  \<open>datetime.utcfromtimestamp\<close> covers the years 1 to 9999 (on a platform whose
  \<open>gmtime\<close> takes negative and large values, as on Linux) and raises outside
  them; which exception it raises there (ValueError, OverflowError or OSError) depends
  on the value and the platform and is written \<open>DatetimeRangeError\<close>.
\<close>

datatype datetime = Datetime int

definition utcfromtimestamp :: "int \<Rightarrow> error + datetime" where
  "utcfromtimestamp t =
     (if t < - 62135596800 \<or> 253402300799 < t then Inl DatetimeRangeError
      else Inr (Datetime t))"

section \<open>\<open>read_log\<close>\<close>

datatype step = Skip | Sample datetime pyfloat | Raise error

definition process_line :: "string \<Rightarrow> step" where
  \<comment> \<open>the body of the loop of \<open>read_log\<close> on one line of the file\<close>
  "process_line raw =
     (let line = str_strip raw
      in if line = [] then Skip
         else if startswith line ''monitor start'' \<or> startswith line ''[iostat]'' then Skip
         else
           let parts = str_split line
           in if length parts < 3 then Skip
              else
                (case py_float (parts ! 0) of
                   None \<Rightarrow> Skip
                 | Some f0 \<Rightarrow>
                     (case py_int f0 of
                        Inl e \<Rightarrow> if e = ValueError then Skip else Raise e
                      | Inr epoch \<Rightarrow>
                          (case py_float (parts ! 2) of
                             None \<Rightarrow> Skip
                           | Some speed \<Rightarrow>
                               (case utcfromtimestamp epoch of
                                  Inl e \<Rightarrow> Raise e
                                | Inr d \<Rightarrow> Sample d speed)))))"

fun read_loop :: "string list \<Rightarrow> datetime list \<times> pyfloat list \<Rightarrow> error + datetime list \<times> pyfloat list" where
  "read_loop [] (ts, mbps) = Inr (ts, mbps)"
| "read_loop (l # ls) (ts, mbps) =
     (case process_line l of
        Skip \<Rightarrow> read_loop ls (ts, mbps)
      | Sample d speed \<Rightarrow> read_loop ls (ts @ [d], mbps @ [speed])
      | Raise e \<Rightarrow> Inl e)"

definition read_log :: "(string \<rightharpoonup> string) \<Rightarrow> string \<Rightarrow> error + datetime list \<times> pyfloat list" where
  \<comment> \<open>\<open>files\<close> maps a path to the decoded text of the file there; opening a path with
      no file raises OSError.\<close>
  "read_log files path =
     (case files path of
        None \<Rightarrow> Inl OSError
      | Some content \<Rightarrow> read_loop (file_lines content) ([], []))"

section \<open>\<open>main\<close>\<close>

type_synonym plot_args = "datetime list \<times> pyfloat list \<times> string \<times> string"

record outcome =
  returned :: "error + int"
  stderr :: "string list"
  stdout :: "string list"
  plot_calls :: "plot_args list"

definition main :: "(plot_args \<Rightarrow> error option) \<Rightarrow> (string \<rightharpoonup> string) \<Rightarrow> string list \<Rightarrow> outcome" where
  \<comment> \<open>\<open>plot\<close> stands for the renderer: \<open>plot a = Some e\<close> when drawing or saving raises
      \<open>e\<close>.  \<open>returned\<close> is \<open>Inr n\<close> when \<open>main\<close> returns \<open>n\<close> and \<open>Inl e\<close> when an
      exception leaves it; \<open>plot_calls\<close> lists the calls of the renderer.\<close>
  "main plot files argv =
     (if length argv \<noteq> 3 then
        (case argv of
           [] \<Rightarrow> \<lparr>returned = Inl IndexError, stderr = [], stdout = [], plot_calls = []\<rparr>
         | prog # _ \<Rightarrow>
             \<lparr>returned = Inr 1,
              stderr = [''Usage: '' @ prog @ '' <log-file> <output.jpg>''],
              stdout = [], plot_calls = []\<rparr>)
      else
        let log_path = argv ! 1; out_path = argv ! 2
        in (case read_log files log_path of
              Inl e \<Rightarrow> \<lparr>returned = Inl e, stderr = [], stdout = [], plot_calls = []\<rparr>
            | Inr (ts, mbps) \<Rightarrow>
                if ts = [] then
                  \<lparr>returned = Inr 1, stderr = [''No data points found.''], stdout = [],
                   plot_calls = []\<rparr>
                else
                  let call = (ts, mbps, ''Write speed: '' @ log_path, out_path)
                  in (case plot call of
                        Some e \<Rightarrow>
                          \<lparr>returned = Inl e, stderr = [], stdout = [], plot_calls = [call]\<rparr>
                      | None \<Rightarrow>
                          \<lparr>returned = Inr 0, stderr = [], stdout = [''Wrote '' @ out_path],
                           plot_calls = [call]\<rparr>)))"

section \<open>Notions used in the statements\<close>

fun sample_time :: "step \<Rightarrow> datetime list" where
  "sample_time (Sample d s) = [d]"
| "sample_time _ = []"

fun sample_speed :: "step \<Rightarrow> pyfloat list" where
  "sample_speed (Sample d s) = [s]"
| "sample_speed _ = []"

fun is_raise :: "step \<Rightarrow> bool" where
  "is_raise (Raise e) = True"
| "is_raise _ = False"

fun is_sample :: "step \<Rightarrow> bool" where
  "is_sample (Sample d s) = True"
| "is_sample _ = False"

definition one_file :: "string \<Rightarrow> string \<Rightarrow> (string \<rightharpoonup> string)" where
  \<comment> \<open>a file system with one file\<close>
  "one_file path content = (\<lambda>p. if p = path then Some content else None)"

definition render_ok :: "plot_args \<Rightarrow> error option" where
  \<comment> \<open>a renderer that never fails\<close>
  "render_ok call = None"

definition line_fields :: "string \<Rightarrow> string list" where
  \<comment> \<open>the whitespace-separated fields of a line of the file\<close>
  "line_fields l = str_split (str_strip l)"

definition blank :: "string \<Rightarrow> bool" where
  "blank l = (str_strip l = [])"

definition sentinel :: "string \<Rightarrow> bool" where
  \<comment> \<open>the line starts with one of the two sentinel prefixes\<close>
  "sentinel l =
     (startswith (str_strip l) ''monitor start'' \<or> startswith (str_strip l) ''[iostat]'')"


definition in_datetime_range :: "int \<Rightarrow> bool" where
  \<comment> \<open>the epoch seconds of the years 1 to 9999\<close>
  "in_datetime_range t = (- 62135596800 \<le> t \<and> t \<le> 253402300799)"




definition same_sample_fields :: "string \<Rightarrow> string \<Rightarrow> bool" where
  \<comment> \<open>two lines, both non-blank, without sentinel prefix and of at least three fields,
      that agree on fields 0 and 2\<close>
  "same_sample_fields l l' =
     (\<not> blank l \<and> \<not> blank l' \<and> \<not> sentinel l \<and> \<not> sentinel l' \<and>
      3 \<le> length (line_fields l) \<and> 3 \<le> length (line_fields l') \<and>
      line_fields l ! 0 = line_fields l' ! 0 \<and> line_fields l ! 2 = line_fields l' ! 2)"


section \<open>The loop of \<open>read_log\<close>\<close>

lemma read_loop_length:
  "read_loop ls (ts, mbps) = Inr (ts', mbps') \<Longrightarrow> length ts = length mbps \<Longrightarrow> length ts' = length mbps'"
  by (induction ls arbitrary: ts mbps) (auto split: step.splits)


lemma read_loop_no_raise:
  "\<forall>l\<in>set ls. \<not> is_raise (process_line l) \<Longrightarrow>
   read_loop ls (ts, mbps) =
     Inr (ts @ concat (map (sample_time \<circ> process_line) ls),
          mbps @ concat (map (sample_speed \<circ> process_line) ls))"
proof (induction ls arbitrary: ts mbps)
  case Nil
  then show ?case by simp
next
  case (Cons l ls)
  then show ?case by (cases "process_line l") simp_all
qed

lemma read_loop_Inr_no_raise:
  "read_loop ls (ts, mbps) = Inr r \<Longrightarrow> \<forall>l\<in>set ls. \<not> is_raise (process_line l)"
proof (induction ls arbitrary: ts mbps)
  case Nil
  then show ?case by simp
next
  case (Cons l ls)
  then show ?case by (cases "process_line l") auto
qed

lemma read_loop_Inr_eq:
  assumes "read_loop ls (ts, mbps) = Inr (ts', mbps')"
  shows "ts' = ts @ concat (map (sample_time \<circ> process_line) ls)"
    and "mbps' = mbps @ concat (map (sample_speed \<circ> process_line) ls)"
  using read_loop_no_raise [OF read_loop_Inr_no_raise [OF assms], of ts mbps] assms by simp_all

lemma samples_of_filter:
  "map process_line (filter (\<lambda>l. is_sample (process_line l)) ls) =
   map (\<lambda>(d, s). Sample d s)
     (zip (concat (map (sample_time \<circ> process_line) ls))
          (concat (map (sample_speed \<circ> process_line) ls)))"
proof (induction ls)
  case Nil
  then show ?case by simp
next
  case (Cons l ls)
  then show ?case by (cases "process_line l") simp_all
qed

lemma samples_length:
  "length (concat (map (sample_time \<circ> process_line) ls)) =
   length (concat (map (sample_speed \<circ> process_line) ls))"
proof (induction ls)
  case Nil
  then show ?case by simp
next
  case (Cons l ls)
  then show ?case by (cases "process_line l") simp_all
qed

lemma read_log_empty_speeds:
  assumes "read_log files path = Inr ([], mbps)"
  shows "mbps = []"
proof -
  from assms obtain content where "read_loop (file_lines content) ([], []) = Inr ([], mbps)"
    by (auto simp: read_log_def split: option.splits)
  from read_loop_length [OF this] show ?thesis by simp
qed

lemma one_file_same [simp]: "one_file path content path = Some content"
  by (simp add: one_file_def)

section \<open>Sentinel lines\<close>

lemma strip_keeps_prefix:
  assumes "p \<noteq> []" and "\<not> isspace (hd p)" and "\<not> isspace (last p)"
  shows "str_strip (p @ r) = p @ rev (dropWhile isspace (rev r))"
proof -
  from assms(1,2) have "dropWhile isspace (p @ r) = p @ r"
    by (cases p) simp_all
  moreover from assms(1,3) have "dropWhile isspace (rev p) = rev p"
    by (cases "rev p") (auto simp: last_rev [symmetric] simp del: last_rev)
  ultimately show ?thesis
    by (simp add: str_strip_def dropWhile_append)
qed

lemma startswith_append: "startswith s p \<longleftrightarrow> (\<exists>r. s = p @ r)"
  unfolding startswith_def
  by (metis append_eq_conv_conj append_take_drop_id)

lemma strip_monitor_start:
  assumes "startswith l ''monitor start''"
  shows "startswith (str_strip l) ''monitor start''"
proof -
  from assms obtain r where "l = ''monitor start'' @ r"
    by (auto simp: startswith_append)
  moreover have "str_strip (''monitor start'' @ r) = ''monitor start'' @ rev (dropWhile isspace (rev r))"
    by (rule strip_keeps_prefix) (simp_all add: isspace_def)
  ultimately show ?thesis
    by (simp only: startswith_append) blast
qed

lemma process_line_monitor_start:
  "startswith l ''monitor start'' \<Longrightarrow> process_line l = Skip"
  using strip_monitor_start [of l] by (simp add: process_line_def Let_def)

section \<open>The loop body, by the fields of the line\<close>


lemma process_line_fields:
  "process_line l =
     (if blank l \<or> sentinel l \<or> length (line_fields l) < 3 then Skip
      else
        (case py_float (line_fields l ! 0) of
           None \<Rightarrow> Skip
         | Some (Finite neg m) \<Rightarrow>
             (case py_float (line_fields l ! 2) of
                None \<Rightarrow> Skip
              | Some speed \<Rightarrow>
                  if in_datetime_range (trunc_zero neg m)
                  then Sample (Datetime (trunc_zero neg m)) speed
                  else Raise DatetimeRangeError)
         | Some (Infinite neg) \<Rightarrow> Raise OverflowError
         | Some NaN \<Rightarrow> Skip))"
  by (auto simp: process_line_def Let_def blank_def sentinel_def line_fields_def py_int_def
      utcfromtimestamp_def in_datetime_range_def
      split: option.splits pyfloat.splits)

lemma same_sample_fields_process:
  "same_sample_fields l l' \<Longrightarrow> process_line l = process_line l'"
  by (simp add: process_line_fields same_sample_fields_def
      cong: option.case_cong pyfloat.case_cong)

lemma read_loop_same_fields:
  "list_all2 (\<lambda>l l'. l = l' \<or> same_sample_fields l l') ls ls' \<Longrightarrow>
   read_loop ls acc = read_loop ls' acc"
proof (induction ls ls' arbitrary: acc rule: list_all2_induct)
  case Nil
  then show ?case by simp
next
  case (Cons l ls l' ls')
  from Cons.hyps(1) have "process_line l = process_line l'"
    by (auto dest: same_sample_fields_process)
  with Cons.IH show ?case
    by (cases acc) (simp split: step.splits)
qed





section \<open>Fields and the sign of a float\<close>













lemma pow2_pos: "0 < pow2 k"
  by (simp add: pow2_def)

lemma takeWhile_digits: "\<forall>c\<in>set (takeWhile isdigit s). isdigit c"
  by (auto dest: set_takeWhileD)


lemma round_half_even_nonneg: "0 \<le> y \<Longrightarrow> 0 \<le> round_half_even y"
  by (auto simp: round_half_even_def Let_def)





lemma process_line_Sample:
  "process_line l = Sample d s \<Longrightarrow>
   3 \<le> length (line_fields l) \<and>
   (\<exists>neg m. py_float (line_fields l ! 0) = Some (Finite neg m) \<and> d = Datetime (trunc_zero neg m)) \<and>
   py_float (line_fields l ! 2) = Some s"
  by (auto simp: process_line_fields split: if_splits option.splits pyfloat.splits)

lemma sample_time_mem: "d \<in> set (sample_time st) \<Longrightarrow> \<exists>s. st = Sample d s"
  by (cases st) auto

lemma sample_speed_mem: "s \<in> set (sample_speed st) \<Longrightarrow> \<exists>d. st = Sample d s"
  by (cases st) auto

lemma read_log_lines:
  assumes "files path = Some content" and "read_log files path = Inr (ts, mbps)"
  shows "ts = concat (map (sample_time \<circ> process_line) (file_lines content))"
    and "mbps = concat (map (sample_speed \<circ> process_line) (file_lines content))"
proof -
  from assms have "read_loop (file_lines content) ([], []) = Inr (ts, mbps)"
    by (simp add: read_log_def)
  from read_loop_Inr_eq [OF this]
  show "ts = concat (map (sample_time \<circ> process_line) (file_lines content))"
    and "mbps = concat (map (sample_speed \<circ> process_line) (file_lines content))"
    by simp_all
qed

section \<open>The lines behind a series\<close>

lemma series_lines:
  assumes "files path = Some content" and "read_log files path = Inr (ts, mbps)"
  shows "\<exists>ks. subseq ks (file_lines content) \<and> length ks = length ts \<and> length ts = length mbps \<and>
           (\<forall>i<length ts. process_line (ks ! i) = Sample (ts ! i) (mbps ! i))"
proof -
  let ?ls = "file_lines content"
  let ?ks = "filter (\<lambda>l. is_sample (process_line l)) ?ls"
  have ts: "ts = concat (map (sample_time \<circ> process_line) ?ls)"
    and mbps: "mbps = concat (map (sample_speed \<circ> process_line) ?ls)"
    using read_log_lines [OF assms] by simp_all
  have len: "length ts = length mbps"
    unfolding ts mbps by (rule samples_length)
  have m: "map process_line ?ks = map (\<lambda>(d, s). Sample d s) (zip ts mbps)"
    unfolding ts mbps by (rule samples_of_filter)
  then have "length (map process_line ?ks) = length (map (\<lambda>(d, s). Sample d s) (zip ts mbps))"
    by simp
  with len have lk: "length ?ks = length ts" by simp
  have "process_line (?ks ! i) = Sample (ts ! i) (mbps ! i)" if "i < length ts" for i
  proof -
    from that lk have "process_line (?ks ! i) = map process_line ?ks ! i" by simp
    also have "\<dots> = map (\<lambda>(d, s). Sample d s) (zip ts mbps) ! i" by (simp only: m)
    also from that len have "\<dots> = Sample (ts ! i) (mbps ! i)" by simp
    finally show ?thesis .
  qed
  with lk len show ?thesis
    by (intro exI [of _ ?ks]) auto
qed

section \<open>The rounding of \<open>float\<close>\<close>

text \<open>
  \<open>ilog2\<close> is the binary exponent of a positive rational, and a finite result of
  \<open>round64\<close> is a multiple \<open>n * 2 ^ q\<close> of the spacing at that exponent, with
  \<open>n \<le> 2 ^ 53\<close>, at most half a spacing away from the exact value.
\<close>


lemma pow2_nonneg_eq: "0 \<le> k \<Longrightarrow> pow2 k = 2 ^ nat k"
  by (simp add: pow2_def)

lemma pow2_Suc: "pow2 (k + 1) = 2 * pow2 k"
proof -
  consider "0 \<le> k" | "k = - 1" | "k < - 1" by linarith
  then show ?thesis
  proof cases
    case 1
    then have "nat (k + 1) = Suc (nat k)" by simp
    with 1 show ?thesis by (simp add: pow2_def)
  next
    case 2
    then show ?thesis by (simp add: pow2_def)
  next
    case 3
    then have "nat (- k) = Suc (nat (- k - 1))" by simp
    with 3 show ?thesis by (simp add: pow2_def)
  qed
qed

lemma pow2_add_nat: "pow2 (a + int m) = 2 ^ m * pow2 a"
proof (induction m)
  case 0
  then show ?case by simp
next
  case (Suc m)
  have "a + int (Suc m) = (a + int m) + 1" by simp
  then have "pow2 (a + int (Suc m)) = pow2 ((a + int m) + 1)" by (simp only:)
  also have "\<dots> = 2 * pow2 (a + int m)" by (rule pow2_Suc)
  finally show ?case by (simp add: Suc.IH)
qed

lemma bit_length_nonneg: "0 \<le> bit_length n"
  by (induction n rule: bit_length.induct) (subst bit_length.simps, simp)

lemma bit_length_bounds:
  "0 < n \<Longrightarrow> 2 ^ nat (bit_length n - 1) \<le> n \<and> n < 2 ^ nat (bit_length n)"
proof (induction n rule: bit_length.induct)
  case (1 n)
  show ?case
  proof (cases "n = 1")
    case True
    have "bit_length 1 = 1" by (simp add: bit_length.simps)
    with True show ?thesis by simp
  next
    case False
    with "1.prems" have h: "0 < n div 2" by simp
    with "1.prems" "1.IH" have ih: "2 ^ nat (bit_length (n div 2) - 1) \<le> n div 2"
      "n div 2 < 2 ^ nat (bit_length (n div 2))" by simp_all
    define b where "b = bit_length (n div 2)"
    from "1.prems" have bl: "bit_length n = 1 + b" by (subst bit_length.simps) (simp add: b_def)
    have b1: "1 \<le> b"
    proof (rule ccontr)
      assume "\<not> 1 \<le> b"
      with bit_length_nonneg [of "n div 2"] have "b = 0" by (simp add: b_def)
      with ih(2) h show False by (simp add: b_def)
    qed
    then have e: "nat b = Suc (nat (b - 1))" by simp
    from ih(1) have "2 * 2 ^ nat (b - 1) \<le> 2 * (n div 2)" by (simp add: b_def)
    also have "\<dots> \<le> n" by simp
    finally have lo: "2 ^ nat b \<le> n" by (simp add: e)
    from ih(2) have "n div 2 + 1 \<le> 2 ^ nat b" by (simp add: b_def)
    then have "2 * (n div 2) + 2 \<le> 2 * 2 ^ nat b" by simp
    moreover have "n < 2 * (n div 2) + 2" by presburger
    ultimately have hi: "n < 2 * 2 ^ nat b" by linarith
    from b1 have "nat (1 + b) = Suc (nat b)" by simp
    with lo hi bl show ?thesis by simp
  qed
qed

lemma ilog2_bounds:
  assumes "0 < x"
  shows "pow2 (ilog2 x) \<le> x \<and> x < pow2 (ilog2 x + 1)"
proof (cases "1 \<le> x")
  case True
  define n where "n = \<lfloor>x\<rfloor>"
  from True have n: "0 < n" by (simp add: n_def)
  from bit_length_bounds [OF n] have lo: "2 ^ nat (bit_length n - 1) \<le> n"
    and hi: "n + 1 \<le> 2 ^ nat (bit_length n)" by simp_all
  from n bit_length_bounds [OF n] have b1: "1 \<le> bit_length n"
    using bit_length_nonneg [of n] by (cases "bit_length n = 0") auto
  have "rat_of_int (2 ^ nat (bit_length n - 1)) \<le> rat_of_int n" using lo by (simp only: of_int_le_iff)
  also have "\<dots> \<le> x" by (simp add: n_def)
  finally have l: "pow2 (bit_length n - 1) \<le> x" using b1 by (simp add: pow2_nonneg_eq)
  have "x < rat_of_int (n + 1)" unfolding n_def by simp linarith
  also have "\<dots> \<le> rat_of_int (2 ^ nat (bit_length n))" using hi by (simp only: of_int_le_iff)
  finally have u: "x < pow2 (bit_length n)" using b1 by (simp add: pow2_nonneg_eq)
  from True l u show ?thesis by (simp add: ilog2_def n_def)
next
  case False
  define y where "y = 1 / x"
  define c where "c = \<lceil>y\<rceil>"
  from False assms have y1: "1 < y" by (simp add: y_def)
  then have c2: "0 < c - 1" unfolding c_def by (simp add: less_ceiling_iff)
  define k where "k = bit_length (c - 1)"
  from bit_length_bounds [OF c2] have lo: "2 ^ nat (k - 1) \<le> c - 1"
    and hi: "c \<le> 2 ^ nat k" by (simp_all add: k_def)
  from c2 bit_length_bounds [OF c2] have k1: "1 \<le> k"
    using bit_length_nonneg [of "c - 1"] by (cases "k = 0") (auto simp: k_def)
  have "y \<le> rat_of_int c" by (simp add: c_def)
  also have "\<dots> \<le> rat_of_int (2 ^ nat k)" using hi by (simp only: of_int_le_iff)
  finally have "y \<le> 2 ^ nat k" by simp
  with assms have l: "1 / 2 ^ nat k \<le> x"
    by (simp add: y_def field_simps)
  have "rat_of_int (2 ^ nat (k - 1)) \<le> rat_of_int (c - 1)" using lo by (simp only: of_int_le_iff)
  also have "\<dots> < y" using ceiling_correct [of y] by (simp add: c_def)
  finally have "2 ^ nat (k - 1) < y" by simp
  with assms have u: "x < 1 / 2 ^ nat (k - 1)"
    by (simp add: y_def field_simps)
  from k1 have p1: "pow2 (- k) = 1 / 2 ^ nat k" by (simp add: pow2_def)
  from k1 have p2: "pow2 (- k + 1) = 1 / 2 ^ nat (k - 1)"
    by (cases "k = 1") (auto simp: pow2_def algebra_simps)
  from False l u p1 p2 show ?thesis
    by (simp add: ilog2_def y_def c_def k_def)
qed

lemma round_half_even_near: "\<bar>rat_of_int (round_half_even y) - y\<bar> \<le> 1 / 2"
proof -
  have "rat_of_int \<lfloor>y\<rfloor> \<le> y" "y < rat_of_int \<lfloor>y\<rfloor> + 1" by linarith+
  then show ?thesis
    by (auto simp: round_half_even_def Let_def)
qed

lemma round64_nearest:
  assumes "0 < x" and "round64 neg x = Finite neg' r"
  shows "\<exists>n q. q = max (ilog2 x) (- 1022) - 52 \<and> r = rat_of_int n * pow2 q \<and>
           0 \<le> n \<and> n \<le> 2 ^ 53 \<and> \<bar>r - x\<bar> \<le> pow2 q / 2 \<and> neg' = neg"
proof -
  define q where "q = max (ilog2 x) (- 1022) - 52"
  define n where "n = round_half_even (x / pow2 q)"
  from assms have r: "r = rat_of_int n * pow2 q" and neg: "neg' = neg"
    by (auto simp: round64_def Let_def q_def n_def split: if_splits)
  have pq: "0 < pow2 q" by (rule pow2_pos)
  from assms(1) pq have "0 \<le> x / pow2 q" by simp
  then have n0: "0 \<le> n" unfolding n_def by (rule round_half_even_nonneg)
  have near: "\<bar>rat_of_int n - x / pow2 q\<bar> \<le> 1 / 2"
    unfolding n_def by (rule round_half_even_near)
  have "rat_of_int n * pow2 q - x = (rat_of_int n - x / pow2 q) * pow2 q"
    using pq by (simp add: left_diff_distrib)
  then have "\<bar>r - x\<bar> = \<bar>rat_of_int n - x / pow2 q\<bar> * \<bar>pow2 q\<bar>"
    by (simp only: r abs_mult)
  with pq have "\<bar>r - x\<bar> = \<bar>rat_of_int n - x / pow2 q\<bar> * pow2 q"
    by simp
  also have "\<dots> \<le> 1 / 2 * pow2 q"
    using near pq by (intro mult_right_mono) simp_all
  finally have err: "\<bar>r - x\<bar> \<le> pow2 q / 2" by simp
  have "x < pow2 (ilog2 x + 1)" using ilog2_bounds [OF assms(1)] by simp
  also have "pow2 (ilog2 x + 1) \<le> pow2 (q + 53)"
  proof -
    define d where "d = nat (q + 53 - (ilog2 x + 1))"
    have "ilog2 x + 1 \<le> q + 53" by (simp add: q_def)
    then have d: "q + 53 = ilog2 x + 1 + int d" by (simp add: d_def)
    have "pow2 (q + 53) = 2 ^ d * pow2 (ilog2 x + 1)"
      unfolding d by (rule pow2_add_nat)
    moreover have "(1::rat) \<le> 2 ^ d" by simp
    ultimately show ?thesis using pow2_pos [of "ilog2 x + 1"] by simp
  qed
  finally have "x < pow2 (q + 53)" .
  moreover have "pow2 (q + 53) = 2 ^ 53 * pow2 q"
    using pow2_add_nat [of q 53] by simp
  ultimately have "x / pow2 q < 2 ^ 53" using pq by (simp add: field_simps)
  with near have "rat_of_int n < 2 ^ 53 + 1" by linarith
  then have "rat_of_int n < rat_of_int (2 ^ 53 + 1)" by simp
  then have "n < 2 ^ 53 + 1" by (simp only: of_int_less_iff)
  then have n53: "n \<le> 2 ^ 53" by simp
  from r n0 n53 err neg show ?thesis unfolding q_def by blast
qed

section \<open>Concrete logs\<close>

lemma read_loop_example:
  "read_loop (file_lines ''1700000000 x 12.5\<newline>1700000060 x 13.0\<newline>'') ([], []) =
     Inr ([Datetime 1700000000, Datetime 1700000060], [Finite False (25 / 2), Finite False 13])"
  by code_simp

lemma monitor_line_example:
  "file_lines ''monitor start 2024-01-01\<newline>'' = [''monitor start 2024-01-01\<newline>''] \<and>
   startswith ''monitor start 2024-01-01\<newline>'' ''monitor start''"
  by code_simp




lemma fraction_example:
  "read_log (one_file ''bench.log'' ''1700000000 x 1\<newline>1700000000.9 x 1\<newline>'') ''bench.log'' =
     Inr ([Datetime 1700000000, Datetime 1700000000], [Finite False 1, Finite False 1])"
  by code_simp

lemma other_fields_example:
  "list_all2 (\<lambda>l l'. l = l' \<or> same_sample_fields l l')
     (file_lines ''# header\<newline>1700000000 x 12.5\<newline>'')
     (file_lines ''# header\<newline>1700000000 write 12.5 MB/s\<newline>'')"
  by code_simp

section \<open>Which lines give a sample\<close>




section \<open>The series is two parallel sequences\<close>

text \<open>
  C2: for every input file on which \<open>read_log\<close> returns, the two sequences it returns
  have the same length, and the entries at index \<open>i\<close> of both come from the same line of
  the file: there are lines \<open>ks\<close> of the file, in file order, one per index, such that
  the loop body on \<open>ks ! i\<close> appends exactly \<open>ts ! i\<close> and \<open>mbps ! i\<close>.
\<close>

theorem read_log_parallel:
  assumes "files path = Some content"
    and "read_log files path = Inr (ts, mbps)"
  shows "length ts = length mbps \<and>
         (\<exists>ks. subseq ks (file_lines content) \<and> length ks = length ts \<and>
               (\<forall>i<length ts. process_line (ks ! i) = Sample (ts ! i) (mbps ! i)))"
proof -
  from series_lines [OF assms] obtain ks where
    "subseq ks (file_lines content)" "length ks = length ts" "length ts = length mbps"
    "\<forall>i<length ts. process_line (ks ! i) = Sample (ts ! i) (mbps ! i)"
    by blast
  then show ?thesis by blast
qed

text \<open>
  The two-line log of the scenario: \<open>read_log\<close> returns two samples there, and the theorem applies.
\<close>

theorem read_log_parallel_witness:
  "length [Datetime 1700000000, Datetime 1700000060] = length [Finite False (25 / 2), Finite False 13] \<and>
   (\<exists>ks. subseq ks (file_lines ''1700000000 x 12.5\<newline>1700000060 x 13.0\<newline>'') \<and>
      length ks = length [Datetime 1700000000, Datetime 1700000060] \<and>
      (\<forall>i<length [Datetime 1700000000, Datetime 1700000060].
         process_line (ks ! i) =
           Sample ([Datetime 1700000000, Datetime 1700000060] ! i)
                  ([Finite False (25 / 2), Finite False 13] ! i)))"
proof -
  let ?c = "''1700000000 x 12.5\<newline>1700000060 x 13.0\<newline>''"
  have f: "one_file ''bench.log'' ?c ''bench.log'' = Some ?c" by simp
  have rd: "read_log (one_file ''bench.log'' ?c) ''bench.log'' =
      Inr ([Datetime 1700000000, Datetime 1700000060], [Finite False (25 / 2), Finite False 13])"
    by (simp add: read_log_def read_loop_example)
  from read_log_parallel [OF f rd] show ?thesis .
qed

section \<open>Lines that are skipped\<close>

text \<open>
  C3 fails on the code: in the line \<open>inf x abc\<close> field 2 is not numeric, so the line is
  to be skipped without an error; but \<open>int(float(parts[0]))\<close> runs first and raises
  OverflowError on an infinity, which \<open>except ValueError\<close> does not catch, and
  \<open>read_log\<close> raises.  (A NaN in field 0 raises ValueError there and is skipped.)
\<close>

theorem infinite_time_raises:
  "py_float ''abc'' = None \<and>
   process_line ''nan x abc\<newline>'' = Skip \<and>
   read_log (one_file ''bench.log'' ''inf x abc\<newline>'') ''bench.log'' = Inl OverflowError"
  by code_simp

section \<open>Exit codes and output of \<open>main\<close>\<close>

text \<open>
  C4: \<open>main\<close> returns 0 on success and returns 1 exactly when the number of arguments
  is wrong (with the usage message on stderr) or the parsed series is empty (with the
  diagnostic on stderr); on success stdout confirms the output path.  \<open>argv\<close> is
  \<open>sys.argv\<close>, which holds the program's name first for every script run, hence
  \<open>argv \<noteq> []\<close>.  Success is: three arguments, \<open>read_log\<close> returns a non-empty series and
  the renderer does not raise; \<open>main\<close> returns nothing but 0 and 1.
\<close>

theorem main_exit_codes:
  assumes "argv \<noteq> []"
  shows "(returned (main plot files argv) = Inr 1 \<longleftrightarrow>
            length argv \<noteq> 3 \<or> read_log files (argv ! 1) = Inr ([], [])) \<and>
         (length argv \<noteq> 3 \<longrightarrow>
            stderr (main plot files argv) = [''Usage: '' @ hd argv @ '' <log-file> <output.jpg>'']) \<and>
         (length argv = 3 \<and> read_log files (argv ! 1) = Inr ([], []) \<longrightarrow>
            stderr (main plot files argv) = [''No data points found.'']) \<and>
         (returned (main plot files argv) = Inr 0 \<longleftrightarrow>
            length argv = 3 \<and>
            (\<exists>ts mbps. read_log files (argv ! 1) = Inr (ts, mbps) \<and> ts \<noteq> [] \<and>
               plot (ts, mbps, ''Write speed: '' @ argv ! 1, argv ! 2) = None)) \<and>
         (returned (main plot files argv) = Inr 0 \<longrightarrow>
            stdout (main plot files argv) = [''Wrote '' @ argv ! 2]) \<and>
         (\<forall>n. returned (main plot files argv) = Inr n \<longrightarrow> n = 0 \<or> n = 1)"
proof -
  from assms obtain prog rest where argv: "argv = prog # rest" by (cases argv) auto
  show ?thesis
  proof (cases "length argv = 3")
    case False
    with argv show ?thesis by (simp add: main_def Let_def)
  next
    case True
    show ?thesis
    proof (cases "read_log files (argv ! 1)")
      case (Inl e)
      with True show ?thesis by (simp add: main_def Let_def)
    next
      case (Inr r)
      obtain ts mbps where r: "r = (ts, mbps)" by (cases r)
      show ?thesis
      proof (cases "ts = []")
        case True
        with Inr r have "mbps = []" by (simp add: read_log_empty_speeds)
        with True Inr r \<open>length argv = 3\<close> show ?thesis by (simp add: main_def Let_def)
      next
        case False
        with Inr r \<open>length argv = 3\<close> show ?thesis
          by (cases "plot (ts, mbps, ''Write speed: '' @ argv ! 1, argv ! 2)")
             (simp_all add: main_def Let_def)
      qed
    qed
  qed
qed

text \<open>
  A run with a two-line log and a renderer that does not fail: exit code 0, and stdout
  names the output; the same run with one argument missing: exit code 1 and the usage
  message on stderr.
\<close>

theorem main_exit_codes_witness:
  "[''plot_benchmark.py'', ''bench.log'', ''out.jpg''] \<noteq> [] \<and>
   returned (main render_ok
     (one_file ''bench.log'' ''1700000000 x 12.5\<newline>1700000060 x 13.0\<newline>'')
     [''plot_benchmark.py'', ''bench.log'', ''out.jpg'']) = Inr 0 \<and>
   stdout (main render_ok
     (one_file ''bench.log'' ''1700000000 x 12.5\<newline>1700000060 x 13.0\<newline>'')
     [''plot_benchmark.py'', ''bench.log'', ''out.jpg'']) = [''Wrote out.jpg''] \<and>
   returned (main render_ok
     (one_file ''bench.log'' ''1700000000 x 12.5\<newline>1700000060 x 13.0\<newline>'')
     [''plot_benchmark.py'', ''bench.log'']) = Inr 1 \<and>
   stderr (main render_ok
     (one_file ''bench.log'' ''1700000000 x 12.5\<newline>1700000060 x 13.0\<newline>'')
     [''plot_benchmark.py'', ''bench.log'']) =
     [''Usage: plot_benchmark.py <log-file> <output.jpg>'']"
proof -
  let ?argv = "[''plot_benchmark.py'', ''bench.log'', ''out.jpg'']"
  let ?short = "[''plot_benchmark.py'', ''bench.log'']"
  let ?files = "one_file ''bench.log'' ''1700000000 x 12.5\<newline>1700000060 x 13.0\<newline>''"
  have ne: "?argv \<noteq> []" and ne': "?short \<noteq> []" by simp_all
  have rd: "read_log ?files (?argv ! 1) =
      Inr ([Datetime 1700000000, Datetime 1700000060], [Finite False (25 / 2), Finite False 13])"
    by (simp add: read_log_def read_loop_example)
  have ok: "returned (main render_ok ?files ?argv) = Inr 0"
    using main_exit_codes [OF ne, of render_ok ?files] rd by (simp add: render_ok_def)
  have out: "stdout (main render_ok ?files ?argv) = [''Wrote out.jpg'']"
    using main_exit_codes [OF ne, of render_ok ?files] ok by simp
  have usage: "returned (main render_ok ?files ?short) = Inr 1"
    "stderr (main render_ok ?files ?short) = [''Usage: plot_benchmark.py <log-file> <output.jpg>'']"
    using main_exit_codes [OF ne', of render_ok ?files] by simp_all
  from ne ok out usage show ?thesis by simp
qed

section \<open>Speeds\<close>




section \<open>Two scenarios\<close>

text \<open>
  C6: for the input file whose contents are the two lines \<open>1700000000 x 12.5\<close> and
  \<open>1700000060 x 13.0\<close>, each ended by a newline, \<open>read_log\<close> returns a series of exactly two
  points whose speeds are 12.5 and 13.0, and \<open>main\<close> returns 0 (the renderer not
  failing on that series).
\<close>

theorem scenario_two_samples:
  assumes "files log_path = Some ''1700000000 x 12.5\<newline>1700000060 x 13.0\<newline>''"
    and "plot ([Datetime 1700000000, Datetime 1700000060], [Finite False (25 / 2), Finite False 13],
           ''Write speed: '' @ log_path, out_path) = None"
  shows "read_log files log_path =
           Inr ([Datetime 1700000000, Datetime 1700000060], [Finite False (25 / 2), Finite False 13]) \<and>
         returned (main plot files [prog, log_path, out_path]) = Inr 0"
proof -
  from assms(1) have rd: "read_log files log_path =
      Inr ([Datetime 1700000000, Datetime 1700000060], [Finite False (25 / 2), Finite False 13])"
    by (simp add: read_log_def read_loop_example)
  with assms(2) show ?thesis by (simp add: main_def Let_def)
qed

text \<open>
  The scenario with the file at \<open>bench.log\<close> and a renderer that does not fail.
\<close>

theorem scenario_two_samples_witness:
  "one_file ''bench.log'' ''1700000000 x 12.5\<newline>1700000060 x 13.0\<newline>'' ''bench.log'' =
     Some ''1700000000 x 12.5\<newline>1700000060 x 13.0\<newline>'' \<and>
   read_log (one_file ''bench.log'' ''1700000000 x 12.5\<newline>1700000060 x 13.0\<newline>'') ''bench.log'' =
     Inr ([Datetime 1700000000, Datetime 1700000060], [Finite False (25 / 2), Finite False 13]) \<and>
   returned (main render_ok
     (one_file ''bench.log'' ''1700000000 x 12.5\<newline>1700000060 x 13.0\<newline>'')
     [''plot_benchmark.py'', ''bench.log'', ''out.jpg'']) = Inr 0"
  using scenario_two_samples [of "one_file ''bench.log'' ''1700000000 x 12.5\<newline>1700000060 x 13.0\<newline>''"
      "''bench.log''" render_ok "''out.jpg''" "''plot_benchmark.py''"]
  by (simp add: render_ok_def)

text \<open>
  C7: for an input file that holds only one line, beginning with \<open>monitor start\<close>,
  \<open>read_log\<close> returns the empty series, \<open>main\<close> writes \<open>No data points found.\<close> to
  stderr and returns 1.
\<close>

theorem scenario_monitor_start_only:
  assumes "files log_path = Some content"
    and "file_lines content = [l]"
    and "startswith l ''monitor start''"
  shows "read_log files log_path = Inr ([], []) \<and>
         stderr (main plot files [prog, log_path, out_path]) = [''No data points found.''] \<and>
         returned (main plot files [prog, log_path, out_path]) = Inr 1"
proof -
  from assms have rd: "read_log files log_path = Inr ([], [])"
    by (simp add: read_log_def process_line_monitor_start)
  then show ?thesis by (simp add: main_def Let_def)
qed

text \<open>
  The scenario with the line \<open>monitor start 2024-01-01\<close>.
\<close>

theorem scenario_monitor_start_only_witness:
  "one_file ''bench.log'' ''monitor start 2024-01-01\<newline>'' ''bench.log'' =
     Some ''monitor start 2024-01-01\<newline>'' \<and>
   read_log (one_file ''bench.log'' ''monitor start 2024-01-01\<newline>'') ''bench.log'' = Inr ([], []) \<and>
   stderr (main render_ok (one_file ''bench.log'' ''monitor start 2024-01-01\<newline>'')
     [''plot_benchmark.py'', ''bench.log'', ''out.jpg'']) = [''No data points found.''] \<and>
   returned (main render_ok (one_file ''bench.log'' ''monitor start 2024-01-01\<newline>'')
     [''plot_benchmark.py'', ''bench.log'', ''out.jpg'']) = Inr 1"
  using scenario_monitor_start_only [of "one_file ''bench.log'' ''monitor start 2024-01-01\<newline>''"
      "''bench.log''" "''monitor start 2024-01-01\<newline>''" "''monitor start 2024-01-01\<newline>''"
      render_ok "''plot_benchmark.py''" "''out.jpg''"]
    monitor_line_example
  by simp

section \<open>Timestamps\<close>

text \<open>
  C8, as stated, fails: \<open>1700000000\<close> and \<open>1700000000.99999999\<close> differ only in the
  fractional part, but the nearest binary64 value to the second is \<open>1700000001.0\<close>, so
  the two lines get different timestamps.
\<close>

theorem fraction_rounds_to_next_second:
  "read_log (one_file ''bench.log'' ''1700000000 x 1\<newline>1700000000.99999999 x 1\<newline>'')
     ''bench.log'' =
   Inr ([Datetime 1700000000, Datetime 1700000001], [Finite False 1, Finite False 1])"
  by code_simp

text \<open>
  C8, amended: for every parsed line, the timestamp is the float that field 0 parses to
  (the nearest binary64 value), truncated toward zero to whole seconds; so two lines
  whose floats of field 0 have the same sign and the same integer part yield the same
  timestamp.
\<close>

theorem timestamp_is_truncated_float:
  assumes "files path = Some content" and "read_log files path = Inr (ts, mbps)"
  shows "\<exists>ks. subseq ks (file_lines content) \<and> length ks = length ts \<and>
           (\<forall>i<length ts. \<exists>neg m.
              py_float (line_fields (ks ! i) ! 0) = Some (Finite neg m) \<and>
              ts ! i = Datetime (trunc_zero neg m)) \<and>
           (\<forall>i<length ts. \<forall>j<length ts. \<forall>neg m m'.
              py_float (line_fields (ks ! i) ! 0) = Some (Finite neg m) \<and>
              py_float (line_fields (ks ! j) ! 0) = Some (Finite neg m') \<and>
              \<lfloor>m\<rfloor> = \<lfloor>m'\<rfloor> \<longrightarrow> ts ! i = ts ! j)"
proof -
  from series_lines [OF assms] obtain ks where ks: "subseq ks (file_lines content)"
    "length ks = length ts"
    and smp: "\<forall>i<length ts. process_line (ks ! i) = Sample (ts ! i) (mbps ! i)"
    by blast
  have t: "\<exists>neg m. py_float (line_fields (ks ! i) ! 0) = Some (Finite neg m) \<and>
             ts ! i = Datetime (trunc_zero neg m)" if "i < length ts" for i
  proof -
    from smp that have "process_line (ks ! i) = Sample (ts ! i) (mbps ! i)" by simp
    from process_line_Sample [OF this] show ?thesis by blast
  qed
  have "ts ! i = ts ! j"
    if "i < length ts" "j < length ts"
      and "py_float (line_fields (ks ! i) ! 0) = Some (Finite neg m)"
      and "py_float (line_fields (ks ! j) ! 0) = Some (Finite neg m')"
      and "\<lfloor>m\<rfloor> = \<lfloor>m'\<rfloor>" for i j neg m m'
  proof -
    from t [OF that(1)] that(3) have "ts ! i = Datetime (trunc_zero neg m)" by auto
    moreover from t [OF that(2)] that(4) have "ts ! j = Datetime (trunc_zero neg m')" by auto
    ultimately show ?thesis using that(5) by (simp add: trunc_zero_def)
  qed
  with ks t show ?thesis by (intro exI [of _ ks]) blast
qed

text \<open>
  The fields \<open>1700000000\<close> and \<open>1700000000.9\<close> yield the same timestamp.
\<close>

theorem timestamp_is_truncated_float_witness:
  "read_log (one_file ''bench.log'' ''1700000000 x 1\<newline>1700000000.9 x 1\<newline>'') ''bench.log'' =
     Inr ([Datetime 1700000000, Datetime 1700000000], [Finite False 1, Finite False 1]) \<and>
   (\<exists>ks. subseq ks (file_lines ''1700000000 x 1\<newline>1700000000.9 x 1\<newline>'') \<and>
      length ks = length [Datetime 1700000000, Datetime 1700000000] \<and>
      (\<forall>i<length [Datetime 1700000000, Datetime 1700000000]. \<exists>neg m.
         py_float (line_fields (ks ! i) ! 0) = Some (Finite neg m) \<and>
         [Datetime 1700000000, Datetime 1700000000] ! i = Datetime (trunc_zero neg m)) \<and>
      (\<forall>i<length [Datetime 1700000000, Datetime 1700000000].
         \<forall>j<length [Datetime 1700000000, Datetime 1700000000]. \<forall>neg m m'.
           py_float (line_fields (ks ! i) ! 0) = Some (Finite neg m) \<and>
           py_float (line_fields (ks ! j) ! 0) = Some (Finite neg m') \<and>
           \<lfloor>m\<rfloor> = \<lfloor>m'\<rfloor> \<longrightarrow>
           [Datetime 1700000000, Datetime 1700000000] ! i =
           [Datetime 1700000000, Datetime 1700000000] ! j))"
proof -
  let ?c = "''1700000000 x 1\<newline>1700000000.9 x 1\<newline>''"
  have f: "one_file ''bench.log'' ?c ''bench.log'' = Some ?c" by simp
  from fraction_example timestamp_is_truncated_float [OF f fraction_example]
  show ?thesis by (rule conjI)
qed

section \<open>The other fields\<close>

text \<open>
  C9: the sample of a line depends only on its fields 0 and 2.  Two files whose lines
  correspond one to one, each pair either equal or both non-blank, without sentinel
  prefix, of at least three fields and with the same fields 0 and 2
  (\<open>same_sample_fields\<close>), give the same result of \<open>read_log\<close>: the same two sequences,
  or the same exception.
\<close>

theorem sample_depends_on_fields_0_2:
  assumes "files path = Some content" and "files' path' = Some content'"
    and "list_all2 (\<lambda>l l'. l = l' \<or> same_sample_fields l l') (file_lines content) (file_lines content')"
  shows "read_log files path = read_log files' path'"
  using assms by (simp add: read_log_def read_loop_same_fields)

text \<open>
  Field 1 changed and two fields added to a data line: the series is the same.
\<close>

theorem sample_depends_on_fields_0_2_witness:
  "list_all2 (\<lambda>l l'. l = l' \<or> same_sample_fields l l')
     (file_lines ''# header\<newline>1700000000 x 12.5\<newline>'')
     (file_lines ''# header\<newline>1700000000 write 12.5 MB/s\<newline>'') \<and>
   read_log (one_file ''a.log'' ''# header\<newline>1700000000 x 12.5\<newline>'') ''a.log'' =
   read_log (one_file ''b.log'' ''# header\<newline>1700000000 write 12.5 MB/s\<newline>'') ''b.log''"
proof -
  have a: "one_file ''a.log'' ''# header\<newline>1700000000 x 12.5\<newline>'' ''a.log'' =
      Some ''# header\<newline>1700000000 x 12.5\<newline>''"
    by simp
  have b: "one_file ''b.log'' ''# header\<newline>1700000000 write 12.5 MB/s\<newline>'' ''b.log'' =
      Some ''# header\<newline>1700000000 write 12.5 MB/s\<newline>''"
    by simp
  from other_fields_example
    sample_depends_on_fields_0_2
      [of "one_file ''a.log'' ''# header\<newline>1700000000 x 12.5\<newline>''" "''a.log''"
          "''# header\<newline>1700000000 x 12.5\<newline>''"
          "one_file ''b.log'' ''# header\<newline>1700000000 write 12.5 MB/s\<newline>''" "''b.log''"
          "''# header\<newline>1700000000 write 12.5 MB/s\<newline>''",
       OF a b other_fields_example]
  show ?thesis by (rule conjI)
qed

section \<open>No plot on an error exit\<close>

text \<open>
  C10: when \<open>main\<close> returns 1 (wrong number of arguments, or an empty parsed series),
  the renderer has not been called, so no image file was created or overwritten.
\<close>

theorem main_error_exit_no_plot:
  "returned (main plot files argv) = Inr 1 \<Longrightarrow> plot_calls (main plot files argv) = []"
  by (auto simp: main_def Let_def split: list.splits sum.splits if_splits option.splits prod.splits)

text \<open>
  A run on a log with a sentinel line only: \<open>main\<close> returns 1 and the renderer was not called.
\<close>

theorem main_error_exit_no_plot_witness:
  "returned (main render_ok (one_file ''bench.log'' ''monitor start 2024-01-01\<newline>'')
     [''plot_benchmark.py'', ''bench.log'', ''out.jpg'']) = Inr 1 \<and>
   plot_calls (main render_ok (one_file ''bench.log'' ''monitor start 2024-01-01\<newline>'')
     [''plot_benchmark.py'', ''bench.log'', ''out.jpg'']) = []"
proof -
  let ?m = "main render_ok (one_file ''bench.log'' ''monitor start 2024-01-01\<newline>'')
     [''plot_benchmark.py'', ''bench.log'', ''out.jpg'']"
  have "process_line ''monitor start 2024-01-01\<newline>'' = Skip"
    by (rule process_line_monitor_start) (simp add: startswith_def)
  moreover have "file_lines ''monitor start 2024-01-01\<newline>'' = [''monitor start 2024-01-01\<newline>'']"
    using monitor_line_example by simp
  ultimately have r: "returned ?m = Inr 1"
    by (simp add: main_def read_log_def Let_def)
  from r main_error_exit_no_plot [OF r] show ?thesis by simp
qed

end
